theory Spec2Isabelle
  imports Complex_Main
begin

section \<open>Binary floating-point arithmetic\<close>

text \<open>
  The controller of \<^verbatim>\<open>src/karts/controller/ai_base_controller.cpp\<close> computes with
  C++ \<^verbatim>\<open>float\<close> values, the binary32 format of IEEE 754, and \<^verbatim>\<open>normalizeAngle\<close> with
  \<^verbatim>\<open>double\<close> (binary64) as well. The embedding keeps that arithmetic: a value is a finite
  number, a negative zero, an infinity or a NaN; every operation computes the exact
  real result and rounds it once, to the nearest value of the format, ties to the even
  significand; a result of magnitude \<open>2 ^ (emax + 1)\<close> or more after rounding is an
  infinity; a division by zero yields an infinity or a NaN, as the hardware does.
\<close>

text \<open>The nearest integer, a tie going to the even one.\<close>

definition rne :: "real \<Rightarrow> int" where
  "rne q =
     (let f = \<lfloor>q\<rfloor>
      in if q - of_int f < 1 / 2 then f
         else if 1 / 2 < q - of_int f then f + 1
         else if even f then f else f + 1)"

text \<open>The binary exponent of a real number that is not zero.\<close>

definition ilog2 :: "real \<Rightarrow> int" where
  "ilog2 x = \<lfloor>log 2 \<bar>x\<bar>\<rfloor>"

text \<open>
  The distance between neighbouring values of a format with \<open>p\<close> significand bits and
  least normal exponent \<open>emin\<close>, at the magnitude of \<open>x\<close>; below \<open>2 ^ emin\<close> it is the
  distance of the subnormal values.
\<close>

definition quantum :: "nat \<Rightarrow> int \<Rightarrow> real \<Rightarrow> real" where
  "quantum p emin x = 2 powi (max (ilog2 x) emin - int p + 1)"

definition round_real :: "nat \<Rightarrow> int \<Rightarrow> real \<Rightarrow> real" where
  "round_real p emin x =
     (if x = 0 then 0 else of_int (rne (x / quantum p emin x)) * quantum p emin x)"

text \<open>The real numbers that the format holds, its largest exponent left aside.\<close>

definition representable :: "nat \<Rightarrow> int \<Rightarrow> real \<Rightarrow> bool" where
  "representable p emin y =
     (\<exists>m e. y = of_int m * 2 powi e \<and> \<bar>m\<bar> < 2 ^ p \<and> emin - int p + 1 \<le> e)"

text \<open>
  A floating-point value. \<open>Fin 0\<close> is the positive zero and \<open>MZero\<close> the negative one;
  \<open>PInf\<close> and \<open>MInf\<close> are the infinities.
\<close>

datatype ieee = Fin real | MZero | PInf | MInf | NaN

fun valof :: "ieee \<Rightarrow> real" where
  "valof (Fin r) = r"
| "valof MZero = 0"
| "valof PInf = 0"
| "valof MInf = 0"
| "valof NaN = 0"

fun is_nan :: "ieee \<Rightarrow> bool" where
  "is_nan NaN = True"
| "is_nan _ = False"

fun is_inf :: "ieee \<Rightarrow> bool" where
  "is_inf PInf = True"
| "is_inf MInf = True"
| "is_inf _ = False"

fun is_finite :: "ieee \<Rightarrow> bool" where
  "is_finite (Fin r) = True"
| "is_finite MZero = True"
| "is_finite _ = False"

fun is_zero :: "ieee \<Rightarrow> bool" where
  "is_zero (Fin r) = (r = 0)"
| "is_zero MZero = True"
| "is_zero _ = False"

fun sign_bit :: "ieee \<Rightarrow> bool" where
  "sign_bit (Fin r) = (r < 0)"
| "sign_bit MZero = True"
| "sign_bit MInf = True"
| "sign_bit _ = False"

text \<open>
  Rounding of an exact result \<open>x\<close> to the format; \<open>neg\<close> is the sign of the exact result,
  which a zero and an infinity keep.
\<close>

definition round_ieee :: "nat \<Rightarrow> int \<Rightarrow> int \<Rightarrow> bool \<Rightarrow> real \<Rightarrow> ieee" where
  "round_ieee p emin emax neg x =
     (let r = round_real p emin x
      in if 2 powi (emax + 1) \<le> \<bar>r\<bar> then (if neg then MInf else PInf)
         else if r = 0 then (if neg then MZero else Fin 0)
         else Fin r)"

definition ieee_neg :: "ieee \<Rightarrow> ieee" where
  "ieee_neg a =
     (case a of
        Fin r \<Rightarrow> if r = 0 then MZero else Fin (- r)
      | MZero \<Rightarrow> Fin 0
      | PInf \<Rightarrow> MInf
      | MInf \<Rightarrow> PInf
      | NaN \<Rightarrow> NaN)"

definition ieee_abs :: "ieee \<Rightarrow> ieee" where
  "ieee_abs a =
     (case a of
        Fin r \<Rightarrow> Fin \<bar>r\<bar>
      | MZero \<Rightarrow> Fin 0
      | PInf \<Rightarrow> PInf
      | MInf \<Rightarrow> PInf
      | NaN \<Rightarrow> NaN)"

text \<open>
  The four operations, for a rounding \<open>rnd\<close> of the format. An exact sum of zero is the
  positive zero unless both operands are the negative zero.
\<close>

definition ieee_add :: "(bool \<Rightarrow> real \<Rightarrow> ieee) \<Rightarrow> ieee \<Rightarrow> ieee \<Rightarrow> ieee" where
  "ieee_add rnd a b =
     (if is_nan a \<or> is_nan b then NaN
      else if is_inf a then (if is_inf b \<and> sign_bit a \<noteq> sign_bit b then NaN else a)
      else if is_inf b then b
      else if valof a + valof b = 0 then (if a = MZero \<and> b = MZero then MZero else Fin 0)
      else rnd (valof a + valof b < 0) (valof a + valof b))"

definition ieee_sub :: "(bool \<Rightarrow> real \<Rightarrow> ieee) \<Rightarrow> ieee \<Rightarrow> ieee \<Rightarrow> ieee" where
  "ieee_sub rnd a b = ieee_add rnd a (ieee_neg b)"

definition ieee_mul :: "(bool \<Rightarrow> real \<Rightarrow> ieee) \<Rightarrow> ieee \<Rightarrow> ieee \<Rightarrow> ieee" where
  "ieee_mul rnd a b =
     (if is_nan a \<or> is_nan b then NaN
      else if is_inf a \<or> is_inf b
      then (if is_zero a \<or> is_zero b then NaN
            else if sign_bit a \<noteq> sign_bit b then MInf else PInf)
      else rnd (sign_bit a \<noteq> sign_bit b) (valof a * valof b))"

definition ieee_div :: "(bool \<Rightarrow> real \<Rightarrow> ieee) \<Rightarrow> ieee \<Rightarrow> ieee \<Rightarrow> ieee" where
  "ieee_div rnd a b =
     (if is_nan a \<or> is_nan b then NaN
      else if is_inf a
      then (if is_inf b then NaN else if sign_bit a \<noteq> sign_bit b then MInf else PInf)
      else if is_inf b then (if sign_bit a \<noteq> sign_bit b then MZero else Fin 0)
      else if is_zero b
      then (if is_zero a then NaN else if sign_bit a \<noteq> sign_bit b then MInf else PInf)
      else rnd (sign_bit a \<noteq> sign_bit b) (valof a / valof b))"

text \<open>The comparisons: false as soon as an operand is a NaN; the two zeros are equal.\<close>

definition ieee_lt :: "ieee \<Rightarrow> ieee \<Rightarrow> bool" where
  "ieee_lt a b =
     (if is_nan a \<or> is_nan b then False
      else if a = MInf then b \<noteq> MInf
      else if b = PInf then a \<noteq> PInf
      else if a = PInf \<or> b = MInf then False
      else valof a < valof b)"

definition ieee_le :: "ieee \<Rightarrow> ieee \<Rightarrow> bool" where
  "ieee_le a b =
     (if is_nan a \<or> is_nan b then False
      else if a = MInf \<or> b = PInf then True
      else if a = PInf \<or> b = MInf then False
      else valof a \<le> valof b)"

definition ieee_gt :: "ieee \<Rightarrow> ieee \<Rightarrow> bool" where
  "ieee_gt a b = ieee_lt b a"

definition ieee_ge :: "ieee \<Rightarrow> ieee \<Rightarrow> bool" where
  "ieee_ge a b = ieee_le b a"

text \<open>binary32: 24 significand bits, exponents from -126 to 127.\<close>

definition rnd32 :: "bool \<Rightarrow> real \<Rightarrow> ieee" where
  "rnd32 = round_ieee 24 (- 126) 127"

definition fadd :: "ieee \<Rightarrow> ieee \<Rightarrow> ieee" where
  "fadd = ieee_add rnd32"

definition fsub :: "ieee \<Rightarrow> ieee \<Rightarrow> ieee" where
  "fsub = ieee_sub rnd32"

definition fmul :: "ieee \<Rightarrow> ieee \<Rightarrow> ieee" where
  "fmul = ieee_mul rnd32"

definition fdiv :: "ieee \<Rightarrow> ieee \<Rightarrow> ieee" where
  "fdiv = ieee_div rnd32"

text \<open>A decimal literal with the suffix \<^verbatim>\<open>f\<close>: the binary32 value nearest to it.\<close>

definition float_lit :: "real \<Rightarrow> ieee" where
  "float_lit x = rnd32 (x < 0) x"

text \<open>The values that a \<^verbatim>\<open>float\<close> variable can hold.\<close>

definition is_binary32 :: "ieee \<Rightarrow> bool" where
  "is_binary32 a =
     (case a of
        Fin r \<Rightarrow> representable 24 (- 126) r \<and> \<bar>r\<bar> < 2 powi 128
      | _ \<Rightarrow> True)"

section \<open>Data model\<close>

text \<open>\<^verbatim>\<open>Vec3\<close>: the three coordinates read by \<^verbatim>\<open>getX()\<close>, \<^verbatim>\<open>getY()\<close>, \<^verbatim>\<open>getZ()\<close>.\<close>

record Vec3 =
  getX :: ieee
  getY :: ieee
  getZ :: ieee

text \<open>
  The queries the controller makes on its kart (\<^verbatim>\<open>AbstractKart\<close>, its
  \<^verbatim>\<open>KartProperties\<close> and \<^verbatim>\<open>SkiddingProperties\<close>), each one a field.
\<close>

record AbstractKart =
  getXYZ :: Vec3
  getHeading :: ieee
  getMaxSteerAngle :: ieee
  getWheelBase :: ieee
  getBlockedByPlungerTime :: ieee
  getSkidVisualTime :: ieee

record AIProperties =
  m_skidding_threshold :: ieee
  m_time_full_steer :: ieee

datatype SkidControl = SC_NONE | SC_LEFT | SC_RIGHT

record KartControl =
  m_steer :: ieee
  m_skid :: SkidControl

record AIBaseController =
  m_kart :: AbstractKart
  m_ai_properties :: AIProperties
  m_controls :: KartControl
  m_stuck :: bool
  m_collision_times :: "ieee list"

section \<open>Skid decision\<close>

text \<open>\<^verbatim>\<open>AIBaseController::doSkid\<close>, lines 235-250.\<close>

definition doSkid :: "AIBaseController \<Rightarrow> ieee \<Rightarrow> bool" where
  "doSkid c steer_fraction =
     (if ieee_gt (getBlockedByPlungerTime (m_kart c)) (Fin 0) then False
      else if ieee_gt (getSkidVisualTime (m_kart c)) (Fin 0) then False
      else ieee_ge (ieee_abs steer_fraction) (m_skidding_threshold (m_ai_properties c)))"

section \<open>Steering towards a point\<close>

text \<open>
  \<^verbatim>\<open>AIBaseController::steerToPoint\<close>, lines 82-148. Lines 87-89 compute the local
  coordinates \<open>lc\<close> of the target with the quaternion code of the physics library, and
  line 139 calls the arcsine of the C library; neither is under \<^verbatim>\<open>src/\<close>, and both
  are parameters here: \<open>to_local\<close> for lines 87-89 and \<open>asin_impl\<close> for the arcsine.
  The run returns, next to the angle, the divisors of the divisions it has executed, in
  their order (lines 126 and 129); the source has no test of a divisor.
\<close>

definition steerToPoint_run ::
  "(AbstractKart \<Rightarrow> Vec3 \<Rightarrow> Vec3) \<Rightarrow> (ieee \<Rightarrow> ieee) \<Rightarrow> AIBaseController \<Rightarrow> Vec3
     \<Rightarrow> ieee \<times> ieee list" where
  "steerToPoint_run to_local asin_impl c point =
     (let lc = to_local (m_kart c) point in
      if ieee_gt (ieee_abs (getX lc)) (ieee_abs (getZ lc)) then
        (if ieee_gt (getX lc) (Fin 0)
         then (fadd (fmul (getMaxSteerAngle (m_kart c))
                          (m_skidding_threshold (m_ai_properties c)))
                    (float_lit 0.1), [])
         else (fsub (fmul (ieee_neg (getMaxSteerAngle (m_kart c)))
                          (m_skidding_threshold (m_ai_properties c)))
                    (float_lit 0.1), []))
      else
        let radius = fdiv (fadd (fmul (getX lc) (getX lc)) (fmul (getZ lc) (getZ lc)))
                          (fmul (Fin 2) (getX lc));
            sin_steer_angle = fdiv (getWheelBase (m_kart c)) radius;
            divisors = [fmul (Fin 2) (getX lc), radius]
        in if ieee_le sin_steer_angle (Fin (- 1))
           then (fsub (fmul (ieee_neg (getMaxSteerAngle (m_kart c)))
                            (m_skidding_threshold (m_ai_properties c)))
                      (float_lit 0.1), divisors)
           else if ieee_ge sin_steer_angle (Fin 1)
           then (fadd (fmul (getMaxSteerAngle (m_kart c))
                            (m_skidding_threshold (m_ai_properties c)))
                      (float_lit 0.1), divisors)
           else
             let steer_angle = asin_impl sin_steer_angle
             in (fmul steer_angle (Fin 2), divisors))"

definition steerToPoint ::
  "(AbstractKart \<Rightarrow> Vec3 \<Rightarrow> Vec3) \<Rightarrow> (ieee \<Rightarrow> ieee) \<Rightarrow> AIBaseController \<Rightarrow> Vec3 \<Rightarrow> ieee" where
  "steerToPoint to_local asin_impl c point = fst (steerToPoint_run to_local asin_impl c point)"

text \<open>The value of \<open>sin_steer_angle\<close> at line 129, for local coordinates \<open>lc\<close>.\<close>

definition sin_steer_angle_of :: "AIBaseController \<Rightarrow> Vec3 \<Rightarrow> ieee" where
  "sin_steer_angle_of c lc =
     fdiv (getWheelBase (m_kart c))
       (fdiv (fadd (fmul (getX lc) (getX lc)) (fmul (getZ lc) (getZ lc)))
             (fmul (Fin 2) (getX lc)))"

text \<open>The saturated angle of lines 109-110 and 137-138.\<close>

definition saturated_angle :: "AIBaseController \<Rightarrow> ieee" where
  "saturated_angle c =
     fadd (fmul (getMaxSteerAngle (m_kart c)) (m_skidding_threshold (m_ai_properties c)))
          (float_lit 0.1)"

section \<open>Steering smoother\<close>

text \<open>
  \<^verbatim>\<open>AIBaseController::setSteering\<close>, lines 183-214. The controller is passed in and
  returned with its \<^verbatim>\<open>m_controls\<close> updated. The skid tag is decided on the fraction
  before it is clamped, as in the source.
\<close>

definition setSteering :: "AIBaseController \<Rightarrow> ieee \<Rightarrow> ieee \<Rightarrow> AIBaseController" where
  "setSteering c angle dt =
     (let steer_fraction = fdiv angle (getMaxSteerAngle (m_kart c));
          skid = (if \<not> doSkid c steer_fraction then SC_NONE
                  else if ieee_gt steer_fraction (Fin 0) then SC_RIGHT else SC_LEFT);
          old_steer = m_steer (m_controls c);
          steer_fraction = (if ieee_gt steer_fraction (Fin 1) then Fin 1
                            else if ieee_lt steer_fraction (Fin (- 1)) then Fin (- 1)
                            else steer_fraction);
          steer_fraction = (if ieee_gt (getBlockedByPlungerTime (m_kart c)) (Fin 0)
                            then (if ieee_gt steer_fraction (Fin 0.5) then Fin 0.5
                                  else if ieee_lt steer_fraction (Fin (- 0.5)) then Fin (- 0.5)
                                  else steer_fraction)
                            else steer_fraction);
          max_steer_change = fdiv dt (m_time_full_steer (m_ai_properties c));
          new_steer =
            (if ieee_lt old_steer steer_fraction
             then (if ieee_gt (fadd old_steer max_steer_change) steer_fraction
                   then steer_fraction else fadd old_steer max_steer_change)
             else (if ieee_lt (fsub old_steer max_steer_change) steer_fraction
                   then steer_fraction else fsub old_steer max_steer_change))
      in c\<lparr>m_controls := (m_controls c)\<lparr>m_skid := skid, m_steer := new_steer\<rparr>\<rparr>)"

text \<open>
  The fraction the smoother steers towards: the value that \<open>steer_fraction\<close> holds at
  line 203, after the clamping of lines 193-200. It is \<open>setSteering\<close>'s own chain of
  tests, named so that the properties below can refer to it.
\<close>

definition target_fraction :: "AIBaseController \<Rightarrow> ieee \<Rightarrow> ieee" where
  "target_fraction c angle =
     (let steer_fraction = fdiv angle (getMaxSteerAngle (m_kart c));
          steer_fraction = (if ieee_gt steer_fraction (Fin 1) then Fin 1
                            else if ieee_lt steer_fraction (Fin (- 1)) then Fin (- 1)
                            else steer_fraction)
      in if ieee_gt (getBlockedByPlungerTime (m_kart c)) (Fin 0)
         then (if ieee_gt steer_fraction (Fin 0.5) then Fin 0.5
               else if ieee_lt steer_fraction (Fin (- 0.5)) then Fin (- 0.5)
               else steer_fraction)
         else steer_fraction)"

text \<open>The value of \<open>max_steer_change\<close> at line 203.\<close>

definition max_steer_change_of :: "AIBaseController \<Rightarrow> ieee \<Rightarrow> ieee" where
  "max_steer_change_of c dt = fdiv dt (m_time_full_steer (m_ai_properties c))"


section \<open>Stuck detector\<close>

definition NUM_COLLISION :: nat where
  "NUM_COLLISION = 3"

definition COLLISION_TIME :: ieee where
  "COLLISION_TIME = Fin 1.5"

text \<open>The loop of lines 291-293: entries are erased from the front while outdated.\<close>

fun erase_outdated :: "ieee \<Rightarrow> ieee list \<Rightarrow> ieee list" where
  "erase_outdated time [] = []"
| "erase_outdated time (t0 # ts) =
     (if ieee_gt (fsub time t0) (fadd (Fin 1) COLLISION_TIME)
      then erase_outdated time ts else t0 # ts)"

text \<open>
  \<^verbatim>\<open>AIBaseController::crashed\<close>, lines 261-310. \<open>time\<close> is the value of
  \<^verbatim>\<open>World::getWorld()->getTime()\<close>; the material is not read by the function. After
  the \<^verbatim>\<open>push_back\<close> of line 295 the list is not empty, so \<open>hd\<close> is \<^verbatim>\<open>front()\<close>.
\<close>

definition crashed :: "AIBaseController \<Rightarrow> ieee \<Rightarrow> AIBaseController" where
  "crashed c time =
     (if length (m_collision_times c) = 0
      then c\<lparr>m_collision_times := m_collision_times c @ [time]\<rparr>
      else if ieee_lt (fsub time (last (m_collision_times c))) (float_lit 0.2) then c
      else
        let entries = erase_outdated time (m_collision_times c) @ [time]
        in if ieee_gt (fsub time (hd entries)) COLLISION_TIME
                \<and> length entries \<ge> NUM_COLLISION
           then c\<lparr>m_collision_times := entries, m_stuck := True\<rparr>
           else c\<lparr>m_collision_times := entries\<rparr>)"

text \<open>\<^verbatim>\<open>AIBaseController::reset\<close> (lines 47-51) and \<^verbatim>\<open>update\<close> (lines 53-56).\<close>

definition reset :: "AIBaseController \<Rightarrow> AIBaseController" where
  "reset c = c\<lparr>m_stuck := False, m_collision_times := []\<rparr>"

definition update :: "AIBaseController \<Rightarrow> ieee \<Rightarrow> AIBaseController" where
  "update c dt = c\<lparr>m_stuck := False\<rparr>"

text \<open>A sequence of collision reports, one call of \<open>crashed\<close> for each time of the list.\<close>

definition crashed_all :: "AIBaseController \<Rightarrow> ieee list \<Rightarrow> AIBaseController" where
  "crashed_all c ts = foldl crashed c ts"

section \<open>Multitouch device\<close>






section \<open>Concrete karts\<close>

text \<open>
  A kart at the origin heading along the forward axis, with the controller as it is
  after \<open>reset\<close>; the concrete runs below start from it.
\<close>

definition sample_kart :: AbstractKart where
  "sample_kart =
     \<lparr> getXYZ = \<lparr> getX = Fin 0, getY = Fin 0, getZ = Fin 0 \<rparr>,
       getHeading = Fin 0,
       getMaxSteerAngle = Fin 1,
       getWheelBase = Fin 1,
       getBlockedByPlungerTime = Fin 0,
       getSkidVisualTime = Fin 0 \<rparr>"

definition sample_controller :: AIBaseController where
  "sample_controller =
     \<lparr> m_kart = sample_kart,
       m_ai_properties = \<lparr> m_skidding_threshold = Fin 0.5, m_time_full_steer = Fin 1 \<rparr>,
       m_controls = \<lparr> m_steer = Fin 0, m_skid = SC_NONE \<rparr>,
       m_stuck = False,
       m_collision_times = [] \<rparr>"

text \<open>The same controller while a plunger blocks the view of its kart.\<close>

definition plunger_controller :: AIBaseController where
  "plunger_controller =
     sample_controller\<lparr>m_kart := sample_kart\<lparr>getBlockedByPlungerTime := Fin 1\<rparr>\<rparr>"

text \<open>The same controller for a kart of the continuous visual skid style.\<close>

definition visual_controller :: AIBaseController where
  "visual_controller =
     sample_controller\<lparr>m_kart := sample_kart\<lparr>getSkidVisualTime := Fin 1\<rparr>\<rparr>"

text \<open>
  For the concrete runs of \<open>steerToPoint\<close>: local coordinates that are the target's own
  coordinates, and an arcsine that rounds the exact one to binary32.
\<close>

definition local_is_point :: "AbstractKart \<Rightarrow> Vec3 \<Rightarrow> Vec3" where
  "local_is_point k point = point"

definition asin_rounded :: "ieee \<Rightarrow> ieee" where
  "asin_rounded a =
     (case a of
        Fin r \<Rightarrow> if \<bar>r\<bar> \<le> 1 then rnd32 (r < 0) (arcsin r) else NaN
      | MZero \<Rightarrow> MZero
      | _ \<Rightarrow> NaN)"

section \<open>Properties of the rounding\<close>

text \<open>\<open>rne\<close> returns the floor or the integer after it, whichever is nearer.\<close>

lemma rne_floor_or_next:
  "(rne q = \<lfloor>q\<rfloor> \<and> q - of_int \<lfloor>q\<rfloor> \<le> 1 / 2) \<or>
   (rne q = \<lfloor>q\<rfloor> + 1 \<and> 1 / 2 \<le> q - of_int \<lfloor>q\<rfloor>)"
proof (cases "q - of_int \<lfloor>q\<rfloor> < 1 / 2")
  case True
  then have "rne q = \<lfloor>q\<rfloor>" unfolding rne_def Let_def by (simp only: if_True)
  with True show ?thesis by simp
next
  case False
  note nl = this
  show ?thesis
  proof (cases "1 / 2 < q - of_int \<lfloor>q\<rfloor>")
    case True
    with nl have "rne q = \<lfloor>q\<rfloor> + 1"
      unfolding rne_def Let_def by (simp only: if_True if_False)
    with True show ?thesis by simp
  next
    case False
    with nl have eq: "q - of_int \<lfloor>q\<rfloor> = 1 / 2" by linarith
    from nl False have "rne q = (if even \<lfloor>q\<rfloor> then \<lfloor>q\<rfloor> else \<lfloor>q\<rfloor> + 1)"
      unfolding rne_def Let_def by (simp only: if_False)
    with eq show ?thesis by (cases "even \<lfloor>q\<rfloor>") simp_all
  qed
qed

lemma rne_cases:
  obtains (down) "rne q = \<lfloor>q\<rfloor>" and "q - of_int \<lfloor>q\<rfloor> \<le> 1 / 2"
  | (up) "rne q = \<lfloor>q\<rfloor> + 1" and "1 / 2 \<le> q - of_int \<lfloor>q\<rfloor>"
  using rne_floor_or_next [of q] by blast

lemma rne_nearest: "\<bar>of_int (rne q) - q\<bar> \<le> \<bar>of_int n - q\<bar>"
proof -
  have f: "of_int \<lfloor>q\<rfloor> \<le> q" "q < of_int \<lfloor>q\<rfloor> + 1" by linarith+
  have "n \<le> \<lfloor>q\<rfloor> \<or> \<lfloor>q\<rfloor> + 1 \<le> n" by linarith
  then have n: "of_int n \<le> (of_int \<lfloor>q\<rfloor> :: real) \<or> (of_int \<lfloor>q\<rfloor> :: real) + 1 \<le> of_int n"
    by (metis of_int_le_iff of_int_add of_int_1)
  show ?thesis
  proof (cases q rule: rne_cases)
    case down
    then have "(of_int (rne q) :: real) = of_int \<lfloor>q\<rfloor>" by simp
    with down(2) f n show ?thesis by linarith
  next
    case up
    then have "(of_int (rne q) :: real) = of_int \<lfloor>q\<rfloor> + 1" by simp
    with up(2) f n show ?thesis by linarith
  qed
qed

lemma rne_of_int [simp]: "rne (of_int n) = n"
  by (simp add: rne_def)


text \<open>The binary exponent brackets the magnitude of its argument.\<close>

lemma ilog2_bounds:
  assumes "x \<noteq> 0"
  shows "2 powi (ilog2 x) \<le> \<bar>x\<bar>" and "\<bar>x\<bar> < 2 powi (ilog2 x + 1)"
proof -
  have pos: "0 < \<bar>x\<bar>" using assms by simp
  have "2 powr (of_int (ilog2 x)) \<le> \<bar>x\<bar> \<and> \<bar>x\<bar> < 2 powr (of_int (ilog2 x) + 1)"
    using floor_log_eq_powr_iff [OF pos, of 2 "ilog2 x"] by (simp add: ilog2_def)
  moreover have "(2::real) powr (of_int (ilog2 x)) = 2 powi (ilog2 x)"
    by (rule powr_real_of_int') simp_all
  moreover have "(2::real) powr (of_int (ilog2 x) + 1) = 2 powi (ilog2 x + 1)"
    using powr_real_of_int' [of 2 "ilog2 x + 1"] by simp
  ultimately show "2 powi (ilog2 x) \<le> \<bar>x\<bar>" and "\<bar>x\<bar> < 2 powi (ilog2 x + 1)"
    by simp_all
qed

lemma ilog2_eqI:
  assumes "2 powi k \<le> \<bar>x\<bar>" and "\<bar>x\<bar> < 2 powi (k + 1)"
  shows "ilog2 x = k"
proof -
  have pos: "0 < \<bar>x\<bar>"
    using assms(1) zero_less_power_int [of "2::real" k] by linarith
  have a: "(2::real) powr (of_int k) = 2 powi k"
    by (rule powr_real_of_int') simp_all
  have b: "(2::real) powr (of_int k + 1) = 2 powi (k + 1)"
    using powr_real_of_int' [of 2 "k + 1"] by simp
  show ?thesis
    unfolding ilog2_def using floor_log_eq_powr_iff [OF pos, of 2 k] assms a b by simp
qed


lemma abs_scaled:
  fixes a u x :: real
  assumes "0 < u"
  shows "\<bar>a * u - x\<bar> = \<bar>a - x / u\<bar> * u"
proof -
  have "a * u - x = (a - x / u) * u"
    using assms by (simp add: field_simps)
  then show ?thesis
    using assms by (simp add: abs_mult)
qed

lemma scaled_rne_nearest:
  assumes "0 < u"
  shows "\<bar>of_int (rne (x / u)) * u - x\<bar> \<le> \<bar>of_int n * u - x\<bar>"
  unfolding abs_scaled [OF assms]
  using assms rne_nearest [of "x / u" n] by (simp add: mult_right_mono)

lemma power_int_split:
  assumes "j \<le> e"
  shows "(2::real) powi e = 2 ^ nat (e - j) * 2 powi j"
proof -
  have "(2::real) powi e = 2 powi ((e - j) + j)"
    by simp
  also have "\<dots> = 2 powi (e - j) * 2 powi j"
    by (rule power_int_add) simp
  also have "(2::real) powi (e - j) = 2 ^ nat (e - j)"
    using assms by (simp add: power_int_def)
  finally show ?thesis .
qed

lemma multiple_of_quantum:
  assumes "j \<le> e"
  shows "\<exists>n. of_int m * (2::real) powi e = of_int n * 2 powi j"
proof -
  have "of_int m * (2::real) powi e = of_int (m * 2 ^ nat (e - j)) * 2 powi j"
    using power_int_split [OF assms] by simp
  then show ?thesis ..
qed

text \<open>
  Rounding to nearest: no number of the format is nearer to \<open>x\<close> than the rounded \<open>x\<close>.
  It follows that a number of the format is rounded to itself, and that rounding never
  crosses a number of the format.
\<close>

lemma round_real_nearest:
  assumes rep: "representable p emin y" and p: "0 < p"
  shows "\<bar>round_real p emin x - x\<bar> \<le> \<bar>y - x\<bar>"
proof (cases "x = 0")
  case True
  then show ?thesis by (simp add: round_real_def)
next
  case False
  define k where "k = max (ilog2 x) emin"
  define j where "j = k - int p + 1"
  define u where "u = (2::real) powi j"
  have u: "0 < u" by (simp add: u_def)
  have q: "quantum p emin x = u"
    by (simp add: quantum_def u_def j_def k_def)
  have r: "round_real p emin x = of_int (rne (x / u)) * u"
    using False by (simp add: round_real_def q)
  from rep obtain m e where y: "y = of_int m * 2 powi e"
    and m: "\<bar>m\<bar> < 2 ^ p" and e: "emin - int p + 1 \<le> e"
    unfolding representable_def by blast
  show ?thesis
  proof (cases "j \<le> e")
    case True
    then obtain n where "y = of_int n * u"
      using multiple_of_quantum [of j e m] y u_def by blast
    then show ?thesis
      unfolding r using scaled_rne_nearest [OF u, of x n] by simp
  next
    case False
    then have ej: "e + int p \<le> k" by (simp add: j_def)
    with e have "emin < k" by linarith
    then have k: "k = ilog2 x" by (simp add: k_def max_def split: if_splits)
    have lo: "2 powi k \<le> \<bar>x\<bar>"
      unfolding k using ilog2_bounds(1) [OF \<open>x \<noteq> 0\<close>] .
    have "\<bar>y\<bar> = of_int \<bar>m\<bar> * 2 powi e"
      by (simp add: y abs_mult)
    also have "\<dots> < 2 ^ p * 2 powi e"
    proof -
      have "(of_int \<bar>m\<bar> :: real) < of_int (2 ^ p)"
        using m by (simp only: of_int_less_iff)
      then show ?thesis by simp
    qed
    also have "\<dots> = 2 powi (int p + e)"
      by (subst power_int_add) simp_all
    also have "\<dots> \<le> 2 powi k"
      using ej by (intro power_int_increasing) simp_all
    finally have ylt: "\<bar>y\<bar> < 2 powi k" .
    have pw: "(2::real) powi k = 2 ^ (p - 1) * u"
    proof -
      have "j \<le> k" using p by (simp add: j_def)
      moreover have "nat (k - j) = p - 1" using p by (simp add: j_def)
      ultimately show ?thesis
        using power_int_split [of j k] by (simp add: u_def)
    qed
    have near_pos: "\<bar>of_int (rne (x / u)) * u - x\<bar> \<le> \<bar>2 powi k - x\<bar>"
      using scaled_rne_nearest [OF u, of x "2 ^ (p - 1)"] by (simp add: pw)
    have near_neg: "\<bar>of_int (rne (x / u)) * u - x\<bar> \<le> \<bar>- (2 powi k) - x\<bar>"
      using scaled_rne_nearest [OF u, of x "- (2 ^ (p - 1))"] by (simp add: pw)
    show ?thesis
      unfolding r using near_pos near_neg lo ylt by linarith
  qed
qed

lemma round_real_id:
  "representable p emin y \<Longrightarrow> 0 < p \<Longrightarrow> round_real p emin y = y"
  using round_real_nearest [of p emin y y] by simp

lemma round_real_le:
  "representable p emin y \<Longrightarrow> 0 < p \<Longrightarrow> x \<le> y \<Longrightarrow> round_real p emin x \<le> y"
  using round_real_nearest [of p emin y x] by linarith

lemma round_real_ge:
  "representable p emin y \<Longrightarrow> 0 < p \<Longrightarrow> y \<le> x \<Longrightarrow> y \<le> round_real p emin x"
  using round_real_nearest [of p emin y x] by linarith

lemma rne_bounded:
  assumes "\<bar>q\<bar> < of_int N"
  shows "\<bar>rne q\<bar> \<le> N"
proof -
  have up: "\<lfloor>q\<rfloor> + 1 \<le> N"
  proof -
    have "q < of_int N" using assms by linarith
    then have "\<lfloor>q\<rfloor> < N" by (simp add: floor_less_iff)
    then show ?thesis by simp
  qed
  have lo: "- N \<le> \<lfloor>q\<rfloor>"
  proof -
    have "of_int (- N) \<le> q" using assms by simp
    then show ?thesis by (simp only: le_floor_iff)
  qed
  show ?thesis
    by (cases q rule: rne_cases) (use up lo in linarith)+
qed

lemma representable_zero [simp]: "representable p emin 0"
  unfolding representable_def by (intro exI [of _ 0] exI [of _ "emin - int p + 1"]) simp

lemma representable_minus: "representable p emin y \<Longrightarrow> representable p emin (- y)"
  unfolding representable_def
  by (elim exE conjE, rule_tac x = "- m" in exI, rule_tac x = e in exI) simp

text \<open>The rounded number belongs to the format.\<close>

lemma round_real_representable:
  assumes p: "0 < p"
  shows "representable p emin (round_real p emin x)"
proof (cases "x = 0")
  case True
  then show ?thesis by (simp add: round_real_def)
next
  case False
  define k where "k = max (ilog2 x) emin"
  define j where "j = k - int p + 1"
  define u where "u = (2::real) powi j"
  define n where "n = rne (x / u)"
  have u: "0 < u" by (simp add: u_def)
  have q: "quantum p emin x = u"
    by (simp add: quantum_def u_def j_def k_def)
  have r: "round_real p emin x = of_int n * u"
    using False by (simp add: round_real_def q n_def)
  have j: "emin - int p + 1 \<le> j" by (simp add: j_def k_def)
  have "\<bar>x\<bar> < 2 powi (ilog2 x + 1)"
    using ilog2_bounds(2) [OF False] .
  also have "\<dots> \<le> 2 powi (k + 1)"
    by (intro power_int_increasing) (simp_all add: k_def)
  also have "\<dots> = 2 ^ p * u"
  proof -
    have "j \<le> k + 1" by (simp add: j_def)
    moreover have "nat (k + 1 - j) = p" by (simp add: j_def)
    ultimately show ?thesis
      using power_int_split [of j "k + 1"] by (simp add: u_def)
  qed
  finally have "\<bar>x\<bar> / u < 2 ^ p"
    using u by (simp add: field_simps)
  then have "\<bar>x / u\<bar> < of_int (2 ^ p)"
    using u by simp
  then have nb: "\<bar>n\<bar> \<le> 2 ^ p"
    unfolding n_def by (rule rne_bounded)
  show ?thesis
  proof (cases "\<bar>n\<bar> < 2 ^ p")
    case True
    with j show ?thesis
      unfolding representable_def r u_def by blast
  next
    case False
    with nb have top: "\<bar>n\<bar> = 2 ^ p" by simp
    define s :: int where "s = (if 0 \<le> n then 1 else - 1)"
    have n: "n = s * 2 ^ p" using top by (simp add: s_def abs_if split: if_splits)
    have "2 ^ p = (2::int) * 2 ^ (p - 1)"
      using p by (cases p) simp_all
    then have "of_int n * u = of_int (s * 2 ^ (p - 1)) * (2 * u)"
      by (simp add: n)
    also have "2 * u = 2 powi (j + 1)"
      by (simp add: u_def power_int_add)
    finally have v: "round_real p emin x = of_int (s * 2 ^ (p - 1)) * 2 powi (j + 1)"
      by (simp add: r)
    have "\<bar>s * 2 ^ (p - 1)\<bar> < (2::int) ^ p"
      using p by (cases p) (simp_all add: s_def abs_mult)
    moreover have "emin - int p + 1 \<le> j + 1" using j by simp
    ultimately show ?thesis
      unfolding representable_def using v by blast
  qed
qed

lemma round_real_mono:
  assumes p: "0 < p" and le: "x \<le> x'"
  shows "round_real p emin x \<le> round_real p emin x'"
proof -
  have a: "\<bar>round_real p emin x - x\<bar> \<le> \<bar>round_real p emin x' - x\<bar>"
    by (intro round_real_nearest round_real_representable p)
  have b: "\<bar>round_real p emin x' - x'\<bar> \<le> \<bar>round_real p emin x - x'\<bar>"
    by (intro round_real_nearest round_real_representable p)
  show ?thesis
  proof (cases "x = x'")
    case True
    then show ?thesis by simp
  next
    case False
    with le a b show ?thesis by linarith
  qed
qed

text \<open>Rounding a number whose binary exponent is known.\<close>

lemma round_real_eval:
  assumes "2 powi k \<le> \<bar>x\<bar>" and "\<bar>x\<bar> < 2 powi (k + 1)"
  shows "round_real p emin x =
     of_int (rne (x / 2 powi (max k emin - int p + 1))) * 2 powi (max k emin - int p + 1)"
proof -
  have "0 < (2::real) powi k" by simp
  with assms(1) have "0 < \<bar>x\<bar>" by linarith
  then have "x \<noteq> 0" by simp
  moreover have "ilog2 x = k" using assms by (rule ilog2_eqI)
  ultimately show ?thesis by (simp add: round_real_def quantum_def)
qed

lemma representableI:
  "\<bar>m\<bar> < 2 ^ p \<Longrightarrow> emin - int p + 1 \<le> e \<Longrightarrow> y = of_int m * 2 powi e \<Longrightarrow> representable p emin y"
  unfolding representable_def by blast

lemma round_real_sign:
  assumes "0 < p"
  shows "0 \<le> x \<Longrightarrow> 0 \<le> round_real p emin x" and "x \<le> 0 \<Longrightarrow> round_real p emin x \<le> 0"
  using round_real_ge [of p emin 0 x] round_real_le [of p emin 0 x] assms by simp_all

text \<open>The binary32 values of the decimal literals used below.\<close>

lemma float_lit_tenth: "float_lit (1 / 10) = Fin (13421773 / 2 ^ 27)"
  by (simp add: float_lit_def rnd32_def round_ieee_def round_real_eval [of "- 4"] rne_def)

lemma float_lit_fifth: "float_lit (1 / 5) = Fin (13421773 / 2 ^ 26)"
  by (simp add: float_lit_def rnd32_def round_ieee_def round_real_eval [of "- 3"] rne_def)

lemma float_lit_values:
  "float_lit (1 / 20) = Fin (13421773 / 2 ^ 28)"
  "float_lit (3 / 5) = Fin (10066330 / 2 ^ 24)"
  "float_lit (6 / 5) = Fin (10066330 / 2 ^ 23)"
  "float_lit (4 / 5) = Fin (13421773 / 2 ^ 24)"
  "float_lit (8 / 5) = Fin (13421773 / 2 ^ 23)"
  by (simp_all add: float_lit_def rnd32_def round_ieee_def rne_def
      round_real_eval [of "- 5"] round_real_eval [of "- 1"] round_real_eval [of 0])

section \<open>Properties of the binary32 operations\<close>

lemmas ieee_cmp_defs = ieee_lt_def ieee_le_def ieee_gt_def ieee_ge_def

lemmas float_op_defs = fadd_def fsub_def fmul_def fdiv_def ieee_add_def ieee_sub_def
  ieee_mul_def ieee_div_def ieee_neg_def ieee_abs_def rnd32_def round_ieee_def

lemma rnd32_cases:
  obtains (fin) "rnd32 neg x = Fin (round_real 24 (- 126) x)"
      and "round_real 24 (- 126) x \<noteq> 0" and "\<bar>round_real 24 (- 126) x\<bar> < 2 powi 128"
  | (zero) "rnd32 neg x = (if neg then MZero else Fin 0)" and "round_real 24 (- 126) x = 0"
  | (inf) "rnd32 neg x = (if neg then MInf else PInf)"
      and "2 powi 128 \<le> \<bar>round_real 24 (- 126) x\<bar>"
proof (cases "2 powi 128 \<le> \<bar>round_real 24 (- 126) x\<bar>")
  case True
  then have "rnd32 neg x = (if neg then MInf else PInf)"
    by (simp add: rnd32_def round_ieee_def)
  with True show ?thesis by (intro inf)
next
  case False
  show ?thesis
  proof (cases "round_real 24 (- 126) x = 0")
    case True
    then have "rnd32 neg x = (if neg then MZero else Fin 0)"
      by (simp add: rnd32_def round_ieee_def)
    with True show ?thesis by (intro zero)
  next
    case nz: False
    with False have "rnd32 neg x = Fin (round_real 24 (- 126) x)"
      by (simp add: rnd32_def round_ieee_def)
    with nz False show ?thesis by (intro fin) simp_all
  qed
qed

lemma rnd32_not_nan [simp]: "\<not> is_nan (rnd32 neg x)"
  by (cases neg x rule: rnd32_cases) (simp_all split: if_splits)

lemma rnd32_is_binary32 [simp]: "is_binary32 (rnd32 neg x)"
  by (cases neg x rule: rnd32_cases)
    (simp_all add: is_binary32_def round_real_representable split: if_splits)

text \<open>A rounded result against a binary32 number above or below the exact result.\<close>

lemma rnd32_le:
  assumes "representable 24 (- 126) y" and "\<bar>y\<bar> < 2 powi 128" and "x \<le> y"
  shows "ieee_le (rnd32 (x < 0) x) (Fin y)"
proof -
  have r: "round_real 24 (- 126) x \<le> y"
    using assms(1,3) by (intro round_real_le) simp_all
  show ?thesis
  proof (cases "x < 0" x rule: rnd32_cases)
    case fin
    with r show ?thesis by (simp add: ieee_le_def)
  next
    case zero
    with r show ?thesis by (simp add: ieee_le_def)
  next
    case inf
    have "x < 0"
    proof (rule ccontr)
      assume "\<not> x < 0"
      then have "0 \<le> round_real 24 (- 126) x"
        by (intro round_real_sign) simp_all
      with inf(2) r assms(2) show False by linarith
    qed
    with inf show ?thesis by (simp add: ieee_le_def)
  qed
qed

lemma rnd32_ge:
  assumes "representable 24 (- 126) y" and "\<bar>y\<bar> < 2 powi 128" and "y \<le> x"
  shows "ieee_le (Fin y) (rnd32 (x < 0) x)"
proof -
  have r: "y \<le> round_real 24 (- 126) x"
    using assms(1,3) by (intro round_real_ge) simp_all
  show ?thesis
  proof (cases "x < 0" x rule: rnd32_cases)
    case fin
    with r show ?thesis by (simp add: ieee_le_def)
  next
    case zero
    with r show ?thesis by (simp add: ieee_le_def)
  next
    case inf
    have "\<not> x < 0"
    proof
      assume "x < 0"
      then have "round_real 24 (- 126) x \<le> 0"
        by (intro round_real_sign) simp_all
      with inf(2) r assms(2) show False by linarith
    qed
    with inf show ?thesis by (simp add: ieee_le_def)
  qed
qed

lemma ieee_neg_finite [simp]: "is_finite (ieee_neg a) = is_finite a"
  by (cases a) (simp_all add: ieee_neg_def)

lemma valof_ieee_neg [simp]: "valof (ieee_neg a) = - valof a"
  by (cases a) (simp_all add: ieee_neg_def)

lemma is_finite_simps [simp]:
  "is_finite a \<Longrightarrow> \<not> is_nan a" "is_finite a \<Longrightarrow> \<not> is_inf a"
  by (cases a; simp)+

lemma fadd_finite:
  assumes "is_finite a" and "is_finite b"
  shows "fadd a b =
     (if valof a + valof b = 0 then (if a = MZero \<and> b = MZero then MZero else Fin 0)
      else rnd32 (valof a + valof b < 0) (valof a + valof b))"
  using assms by (simp add: fadd_def ieee_add_def)

lemma fsub_finite:
  assumes "is_finite a" and "is_finite b"
  shows "fsub a b =
     (if valof a - valof b = 0 then (if a = MZero \<and> ieee_neg b = MZero then MZero else Fin 0)
      else rnd32 (valof a - valof b < 0) (valof a - valof b))"
  using assms by (simp add: fsub_def ieee_sub_def ieee_add_def)

lemma fsub_le:
  assumes "is_finite a" and "is_finite b"
    and "representable 24 (- 126) y" and "\<bar>y\<bar> < 2 powi 128" and "valof a - valof b \<le> y"
  shows "ieee_le (fsub a b) (Fin y)"
proof (cases "valof a - valof b = 0")
  case True
  with assms(5) show ?thesis
    by (simp add: fsub_finite [OF assms(1,2)] ieee_le_def)
next
  case False
  then show ?thesis
    using rnd32_le [OF assms(3,4,5)] by (simp add: fsub_finite [OF assms(1,2)])
qed

lemma ieee_le_lt_trans: "ieee_le a (Fin y) \<Longrightarrow> y < z \<Longrightarrow> ieee_lt a (Fin z)"
  by (cases a) (simp_all add: ieee_le_def ieee_lt_def split: if_splits)

section \<open>Properties of the skid decision\<close>

lemmas sample_defs = sample_controller_def sample_kart_def plunger_controller_def
  visual_controller_def

text \<open>
  C8: the skid decision reads the controller and changes nothing. It answers no whenever
  the plunger time of the kart is positive, whatever the steer fraction; it answers no
  whenever the skid visual time is positive; in every other case it answers yes exactly
  when the absolute steer fraction reaches the skidding threshold.
\<close>

theorem doSkid_decides:
  "(ieee_gt (getBlockedByPlungerTime (m_kart c)) (Fin 0) \<longrightarrow> \<not> doSkid c f) \<and>
   (ieee_gt (getSkidVisualTime (m_kart c)) (Fin 0) \<longrightarrow> \<not> doSkid c f) \<and>
   (\<not> ieee_gt (getBlockedByPlungerTime (m_kart c)) (Fin 0) \<and>
    \<not> ieee_gt (getSkidVisualTime (m_kart c)) (Fin 0) \<longrightarrow>
      doSkid c f = ieee_ge (ieee_abs f) (m_skidding_threshold (m_ai_properties c)))"
  by (simp add: doSkid_def)

text \<open>One kart for each of the three cases, and fractions on each side of the threshold.\<close>

theorem doSkid_decides_witness:
  "ieee_gt (getBlockedByPlungerTime (m_kart plunger_controller)) (Fin 0) \<and>
   \<not> doSkid plunger_controller (Fin 1) \<and>
   ieee_gt (getSkidVisualTime (m_kart visual_controller)) (Fin 0) \<and>
   \<not> doSkid visual_controller (Fin 1) \<and>
   \<not> ieee_gt (getBlockedByPlungerTime (m_kart sample_controller)) (Fin 0) \<and>
   \<not> ieee_gt (getSkidVisualTime (m_kart sample_controller)) (Fin 0) \<and>
   doSkid sample_controller (Fin 1) \<and> doSkid sample_controller (Fin (- 1)) \<and>
   \<not> doSkid sample_controller (Fin 0.25) \<and> \<not> doSkid sample_controller NaN"
  using doSkid_decides [of plunger_controller "Fin 1"] doSkid_decides [of visual_controller "Fin 1"]
    doSkid_decides [of sample_controller "Fin 1"] doSkid_decides [of sample_controller "Fin (- 1)"]
    doSkid_decides [of sample_controller "Fin 0.25"] doSkid_decides [of sample_controller NaN]
  by (simp add: sample_defs ieee_cmp_defs ieee_abs_def)

section \<open>Properties of the stuck detector\<close>

lemma crashed_keeps_stuck: "m_stuck c \<Longrightarrow> m_stuck (crashed c t)"
  by (simp add: crashed_def Let_def)

lemma foldl_crashed_keeps_stuck: "m_stuck c \<Longrightarrow> m_stuck (foldl crashed c ts)"
  by (induction ts arbitrary: c) (simp_all add: crashed_keeps_stuck)

lemmas crashed_run_simps = crashed_all_def crashed_def sample_controller_def Let_def
  NUM_COLLISION_def COLLISION_TIME_def float_lit_values float_lit_fifth float_lit_tenth
  float_op_defs ieee_cmp_defs rne_def
  round_real_eval [of "- 3"] round_real_eval [of "- 1"] round_real_eval [of 0]
  round_real_eval [of 1]

text \<open>
  Three collisions at the times 0, 0.6 and 1.2, reported to a controller with an empty
  log and the flag down: the third call compares \<open>1.2 - 0\<close> with the collision time 1.5,
  finds it not greater, and leaves the flag down.
\<close>

theorem stuck_three_collisions_counterexample:
  "m_collision_times sample_controller = [] \<and> \<not> m_stuck sample_controller \<and>
   \<not> m_stuck (crashed_all sample_controller [Fin 0, float_lit 0.6, float_lit 1.2])"
  by (simp add: crashed_run_simps)

text \<open>
  C1 (amended): a call of \<open>crashed\<close> that finds the flag down raises it exactly when the
  report is neither the first one nor within the debounce of the last entry and, after
  the new time is appended, the time passed since the oldest entry, as the binary32
  subtraction gives it, is greater than \<open>COLLISION_TIME\<close> and the log holds at least
  \<open>NUM_COLLISION\<close> entries. Hence collisions at 0, 0.6 and 1.2 (a span of 1.2 seconds,
  not greater than 1.5) leave the flag down, while collisions at 0, 0.8 and 1.6 raise it
  at the third call.
\<close>

theorem crashed_sets_stuck:
  "(\<not> m_stuck c \<longrightarrow>
      m_stuck (crashed c t) =
        (m_collision_times c \<noteq> [] \<and>
         \<not> ieee_lt (fsub t (last (m_collision_times c))) (float_lit 0.2) \<and>
         ieee_gt (fsub t (hd (m_collision_times (crashed c t)))) COLLISION_TIME \<and>
         length (m_collision_times (crashed c t)) \<ge> NUM_COLLISION)) \<and>
   (m_collision_times c0 = [] \<and> \<not> m_stuck c0 \<longrightarrow>
      \<not> m_stuck (crashed_all c0 [Fin 0, float_lit 0.6, float_lit 1.2]) \<and>
      m_stuck (crashed_all c0 [Fin 0, float_lit 0.8, float_lit 1.6]))"
proof (intro conjI impI)
  assume "\<not> m_stuck c"
  then show "m_stuck (crashed c t) =
        (m_collision_times c \<noteq> [] \<and>
         \<not> ieee_lt (fsub t (last (m_collision_times c))) (float_lit 0.2) \<and>
         ieee_gt (fsub t (hd (m_collision_times (crashed c t)))) COLLISION_TIME \<and>
         length (m_collision_times (crashed c t)) \<ge> NUM_COLLISION)"
    by (simp add: crashed_def Let_def)
next
  assume "m_collision_times c0 = [] \<and> \<not> m_stuck c0"
  then show "\<not> m_stuck (crashed_all c0 [Fin 0, float_lit 0.6, float_lit 1.2])"
    by (simp add: crashed_run_simps)
next
  assume "m_collision_times c0 = [] \<and> \<not> m_stuck c0"
  then show "m_stuck (crashed_all c0 [Fin 0, float_lit 0.8, float_lit 1.6])"
    by (simp add: crashed_run_simps)
qed

theorem crashed_sets_stuck_witness:
  "\<not> m_stuck (crashed_all sample_controller [Fin 0, float_lit 0.8]) \<and>
   m_stuck (crashed (crashed_all sample_controller [Fin 0, float_lit 0.8]) (float_lit 1.6)) \<and>
   m_collision_times (crashed (crashed_all sample_controller [Fin 0, float_lit 0.8]) (float_lit 1.6))
     = [Fin 0, float_lit 0.8, float_lit 1.6] \<and>
   \<not> m_stuck (crashed_all sample_controller [Fin 0, float_lit 0.6, float_lit 1.2]) \<and>
   m_stuck (crashed_all sample_controller [Fin 0, float_lit 0.8, float_lit 1.6])"
  using crashed_sets_stuck [of "crashed_all sample_controller [Fin 0, float_lit 0.8]"
      "float_lit 1.6" sample_controller]
  by (simp add: crashed_run_simps)

text \<open>
  A log whose last entry is 0.05 and a collision at 0.25, both binary32 values: the exact
  gap is less than 0.2, but the binary32 difference is \<open>0.2f\<close> itself, the test of line 283
  fails, and the report is appended.
\<close>

theorem crashed_debounce_counterexample:
  "valof (Fin 0.25) - valof (float_lit 0.05) < 0.2 \<and>
   m_collision_times
     (crashed (sample_controller\<lparr>m_collision_times := [float_lit 0.05]\<rparr>) (Fin 0.25))
     = [float_lit 0.05, Fin 0.25]"
  by (simp add: crashed_run_simps)

text \<open>
  C7 (amended): a collision reported at a time whose binary32 difference to the last
  entry of a log that is not empty is less than \<open>0.2f\<close> is dropped: the controller, with
  its log and its flag, is returned as it was. This is the case for every exact gap of at
  most 0.19999998807907104, the binary32 value just below \<open>0.2f\<close>. Two collisions at 0
  and 0.1 therefore leave a log of the one entry 0.
\<close>

theorem crashed_debounce:
  "(m_collision_times c \<noteq> [] \<and>
    ieee_lt (fsub t (last (m_collision_times c))) (float_lit 0.2) \<longrightarrow> crashed c t = c) \<and>
   (m_collision_times c \<noteq> [] \<and> is_finite t \<and> is_finite (last (m_collision_times c)) \<and>
    valof t - valof (last (m_collision_times c)) \<le> 13421772 / 2 ^ 26 \<longrightarrow> crashed c t = c) \<and>
   (m_collision_times c0 = [] \<longrightarrow>
      m_collision_times (crashed_all c0 [Fin 0, float_lit 0.1]) = [Fin 0])"
proof (intro conjI impI)
  assume "m_collision_times c \<noteq> [] \<and>
    ieee_lt (fsub t (last (m_collision_times c))) (float_lit 0.2)"
  then show "crashed c t = c" by (simp add: crashed_def)
next
  assume h: "m_collision_times c \<noteq> [] \<and> is_finite t \<and> is_finite (last (m_collision_times c)) \<and>
    valof t - valof (last (m_collision_times c)) \<le> 13421772 / 2 ^ 26"
  have rep: "representable 24 (- 126) (13421772 / 2 ^ 26)"
    by (rule representableI [of 13421772 _ _ "- 26"]) simp_all
  have "ieee_le (fsub t (last (m_collision_times c))) (Fin (13421772 / 2 ^ 26))"
    using h by (intro fsub_le rep) simp_all
  then have "ieee_lt (fsub t (last (m_collision_times c))) (Fin (13421773 / 2 ^ 26))"
    by (rule ieee_le_lt_trans) simp
  with h show "crashed c t = c"
    by (simp add: crashed_def float_lit_fifth)
next
  assume "m_collision_times c0 = []"
  then show "m_collision_times (crashed_all c0 [Fin 0, float_lit 0.1]) = [Fin 0]"
    by (simp add: crashed_all_def crashed_def float_lit_tenth float_lit_fifth
        float_op_defs ieee_cmp_defs rne_def round_real_eval [of "- 4"])
qed

theorem crashed_debounce_witness:
  "m_collision_times (crashed sample_controller (Fin 0)) \<noteq> [] \<and>
   ieee_lt (fsub (float_lit 0.1) (last (m_collision_times (crashed sample_controller (Fin 0)))))
     (float_lit 0.2) \<and>
   is_finite (float_lit 0.1) \<and>
   valof (float_lit 0.1) - valof (last (m_collision_times (crashed sample_controller (Fin 0))))
     \<le> 13421772 / 2 ^ 26 \<and>
   crashed (crashed sample_controller (Fin 0)) (float_lit 0.1) = crashed sample_controller (Fin 0) \<and>
   m_collision_times sample_controller = [] \<and>
   m_collision_times (crashed_all sample_controller [Fin 0, float_lit 0.1]) = [Fin 0]"
  using crashed_debounce [of "crashed sample_controller (Fin 0)" "float_lit 0.1" sample_controller]
  by (simp add: crashed_def sample_controller_def float_lit_tenth float_lit_fifth
      float_op_defs ieee_cmp_defs rne_def round_real_eval [of "- 4"])

text \<open>
  C10: \<open>crashed\<close> never lowers the flag: when it is up before a sequence of collision
  reports it is up after it. \<open>update\<close> and \<open>reset\<close> lower it, whatever it was.
\<close>

theorem stuck_flag_held:
  "(m_stuck c \<longrightarrow> m_stuck (crashed_all c ts)) \<and>
   \<not> m_stuck (update c' dt) \<and> \<not> m_stuck (reset c')"
  by (simp add: crashed_all_def foldl_crashed_keeps_stuck update_def reset_def)

theorem stuck_flag_held_witness:
  "m_stuck (sample_controller\<lparr>m_stuck := True\<rparr>) \<and>
   m_stuck (crashed_all (sample_controller\<lparr>m_stuck := True\<rparr>)
              [Fin 0, float_lit 0.1, Fin 5, Fin 20]) \<and>
   \<not> m_stuck (update (sample_controller\<lparr>m_stuck := True\<rparr>) (float_lit 0.01)) \<and>
   \<not> m_stuck (reset (sample_controller\<lparr>m_stuck := True\<rparr>))"
  using stuck_flag_held [of "sample_controller\<lparr>m_stuck := True\<rparr>"
      "[Fin 0, float_lit 0.1, Fin 5, Fin 20]"
      "sample_controller\<lparr>m_stuck := True\<rparr>" "float_lit 0.01"]
  by simp

section \<open>Properties of the steering smoother\<close>

subsection \<open>Sums and differences with a step that is not negative\<close>

lemma cmp_finite:
  assumes "is_finite a" and "is_finite b"
  shows "ieee_lt a b = (valof a < valof b)" and "ieee_le a b = (valof a \<le> valof b)"
    and "ieee_gt a b = (valof b < valof a)" and "ieee_ge a b = (valof b \<le> valof a)"
  using assms by (cases a; cases b; simp add: ieee_cmp_defs)+

lemma cmp_inf [simp]:
  "is_finite a \<Longrightarrow> ieee_gt PInf a" "is_finite a \<Longrightarrow> ieee_lt MInf a"
  "is_finite a \<Longrightarrow> \<not> ieee_lt PInf a" "is_finite a \<Longrightarrow> \<not> ieee_gt MInf a"
  by (cases a; simp add: ieee_cmp_defs)+

lemma valid_finite:
  assumes "is_finite a" and "is_binary32 a"
  shows "representable 24 (- 126) (valof a)" and "\<bar>valof a\<bar> < 2 powi 128"
  using assms by (cases a; simp add: is_binary32_def)+

lemma ge_zero_disj:
  assumes "ieee_ge a (Fin 0)"
  shows "(is_finite a \<and> 0 \<le> valof a) \<or> a = PInf"
  using assms by (cases a) (simp_all add: ieee_cmp_defs split: if_splits)

text \<open>
  A binary32 number plus a step that is not negative is not below the number, and at most
  two steps above it; the overflow of the sum is the other case. The difference mirrors it.
\<close>

lemma fadd_up:
  assumes a: "is_finite a" "is_binary32 a" and b: "is_finite b" "0 \<le> valof b"
  shows "(fadd a b = PInf \<and> 2 powi 128 \<le> valof a + 2 * valof b) \<or>
     (is_finite (fadd a b) \<and> valof a \<le> valof (fadd a b) \<and>
      valof (fadd a b) - valof a \<le> 2 * valof b)"
proof (cases "valof a + valof b = 0")
  case True
  then have "fadd a b = MZero \<or> fadd a b = Fin 0"
    by (simp add: fadd_finite [OF a(1) b(1)])
  with True b(2) show ?thesis by auto
next
  case False
  define x where "x = valof a + valof b"
  define r where "r = round_real 24 (- 126) x"
  have f: "fadd a b = rnd32 (x < 0) x"
    using False by (simp add: fadd_finite [OF a(1) b(1)] x_def)
  have rep: "representable 24 (- 126) (valof a)" and small: "\<bar>valof a\<bar> < 2 powi 128"
    using valid_finite [OF a] by simp_all
  have lo: "valof a \<le> r"
    unfolding r_def using rep b(2) by (intro round_real_ge) (simp_all add: x_def)
  have "\<bar>r - x\<bar> \<le> \<bar>valof a - x\<bar>"
    unfolding r_def using rep by (intro round_real_nearest) simp_all
  then have hi: "r - valof a \<le> 2 * valof b"
    using b(2) by (simp add: x_def)
  show ?thesis
  proof (cases "x < 0" x rule: rnd32_cases)
    case fin
    with lo hi show ?thesis by (simp add: f r_def)
  next
    case zero
    with lo hi show ?thesis by (simp add: f r_def)
  next
    case inf
    have "\<not> x < 0"
    proof
      assume "x < 0"
      then have "r \<le> 0" unfolding r_def by (intro round_real_sign) simp_all
      with inf(2) lo small show False by (simp add: r_def)
    qed
    moreover from this have "0 \<le> r"
      unfolding r_def by (intro round_real_sign) simp_all
    ultimately show ?thesis
      using inf hi by (simp add: f r_def)
  qed
qed

lemma fsub_down:
  assumes a: "is_finite a" "is_binary32 a" and b: "is_finite b" "0 \<le> valof b"
  shows "(fsub a b = MInf \<and> valof a - 2 * valof b \<le> - (2 powi 128)) \<or>
     (is_finite (fsub a b) \<and> valof (fsub a b) \<le> valof a \<and>
      valof a - valof (fsub a b) \<le> 2 * valof b)"
proof (cases "valof a - valof b = 0")
  case True
  then have "fsub a b = MZero \<or> fsub a b = Fin 0"
    by (simp add: fsub_finite [OF a(1) b(1)])
  with True b(2) show ?thesis by auto
next
  case False
  define x where "x = valof a - valof b"
  define r where "r = round_real 24 (- 126) x"
  have f: "fsub a b = rnd32 (x < 0) x"
    using False by (simp add: fsub_finite [OF a(1) b(1)] x_def)
  have rep: "representable 24 (- 126) (valof a)" and small: "\<bar>valof a\<bar> < 2 powi 128"
    using valid_finite [OF a] by simp_all
  have hi: "r \<le> valof a"
    unfolding r_def using rep b(2) by (intro round_real_le) (simp_all add: x_def)
  have "\<bar>r - x\<bar> \<le> \<bar>valof a - x\<bar>"
    unfolding r_def using rep by (intro round_real_nearest) simp_all
  then have lo: "valof a - r \<le> 2 * valof b"
    using b(2) by (simp add: x_def)
  show ?thesis
  proof (cases "x < 0" x rule: rnd32_cases)
    case fin
    with lo hi show ?thesis by (simp add: f r_def)
  next
    case zero
    with lo hi show ?thesis by (simp add: f r_def)
  next
    case inf
    have neg: "x < 0"
    proof (rule ccontr)
      assume "\<not> x < 0"
      then have "0 \<le> r" unfolding r_def by (intro round_real_sign) simp_all
      with inf(2) hi small show False by (simp add: r_def)
    qed
    then have "r \<le> 0"
      unfolding r_def by (intro round_real_sign) simp_all
    with neg show ?thesis
      using inf lo by (simp add: f r_def)
  qed
qed

lemma is_binary32_simps [simp]:
  "is_binary32 MZero" "is_binary32 PInf" "is_binary32 MInf" "is_binary32 NaN"
  "is_binary32 (Fin 0)"
  by (simp_all add: is_binary32_def)

lemma fdiv_is_binary32 [simp]: "is_binary32 (fdiv a b)"
  by (simp add: fdiv_def ieee_div_def)

lemma fmul_is_binary32 [simp]: "is_binary32 (fmul a b)"
  by (simp add: fmul_def ieee_mul_def)

lemma fadd_is_binary32: "is_binary32 a \<Longrightarrow> is_binary32 b \<Longrightarrow> is_binary32 (fadd a b)"
  by (simp add: fadd_def ieee_add_def)

lemma ieee_neg_is_binary32: "is_binary32 a \<Longrightarrow> is_binary32 (ieee_neg a)"
  by (cases a) (simp_all add: ieee_neg_def is_binary32_def representable_minus)

lemma fsub_is_binary32: "is_binary32 a \<Longrightarrow> is_binary32 b \<Longrightarrow> is_binary32 (fsub a b)"
  using fadd_is_binary32 [of a "ieee_neg b"]
  by (simp add: fsub_def ieee_sub_def fadd_def ieee_neg_is_binary32)

lemma fadd_PInf: "is_finite a \<Longrightarrow> fadd a PInf = PInf"
  by (simp add: fadd_def ieee_add_def)

lemma fsub_PInf: "is_finite a \<Longrightarrow> fsub a PInf = MInf"
  by (simp add: fsub_def ieee_sub_def ieee_add_def ieee_neg_def)






lemma round_real_zero: "round_real p emin 0 = 0"
  by (simp add: round_real_def)

lemmas float_run_simps = float_op_defs ieee_cmp_defs rne_def Let_def round_real_zero

lemma fdiv_by_one: "fdiv (Fin 0) (Fin 1) = Fin 0" "fdiv (Fin 1) (Fin 1) = Fin 1"
  "fdiv (Fin (13421773 / 134217728)) (Fin 1) = Fin (13421773 / 134217728)"
  "fdiv (Fin (1 / 4)) (Fin 1) = Fin (1 / 4)"
  "fdiv (Fin (1 / 1073741824)) (Fin 1) = Fin (1 / 1073741824)"
  by (simp_all add: float_run_simps round_real_eval [of 0] round_real_eval [of "- 4"]
      round_real_eval [of "- 2"] round_real_eval [of "- 30"])

subsection \<open>The target fraction\<close>

text \<open>A value clamped as in lines 193-194 or 198-199 is a NaN or lies within the bound.\<close>

lemma clamp_cases:
  fixes a :: ieee and b :: real
  defines "r \<equiv> (if ieee_gt a (Fin b) then Fin b
                else if ieee_lt a (Fin (- b)) then Fin (- b) else a)"
  assumes "0 \<le> b"
  shows "(is_nan a \<and> r = a) \<or> (is_finite r \<and> - b \<le> valof r \<and> valof r \<le> b)"
  using assms by (cases a) (simp_all add: ieee_cmp_defs)

lemma clamp_is_binary32:
  assumes "is_binary32 a" and "is_binary32 (Fin b)" and "is_binary32 (Fin (- b))"
  shows "is_binary32 (if ieee_gt a (Fin b) then Fin b
                else if ieee_lt a (Fin (- b)) then Fin (- b) else a)"
  using assms by simp

lemma target_fraction_range:
  "is_nan (target_fraction c angle) \<or>
   (is_finite (target_fraction c angle) \<and> - 1 \<le> valof (target_fraction c angle) \<and>
    valof (target_fraction c angle) \<le> 1 \<and>
    (ieee_gt (getBlockedByPlungerTime (m_kart c)) (Fin 0) \<longrightarrow>
       - 0.5 \<le> valof (target_fraction c angle) \<and> valof (target_fraction c angle) \<le> 0.5))"
proof -
  define f where "f = fdiv angle (getMaxSteerAngle (m_kart c))"
  define f1 where "f1 = (if ieee_gt f (Fin 1) then Fin 1
                else if ieee_lt f (Fin (- 1)) then Fin (- 1) else f)"
  define f2 where "f2 = (if ieee_gt f1 (Fin 0.5) then Fin 0.5
                else if ieee_lt f1 (Fin (- 0.5)) then Fin (- 0.5) else f1)"
  have t: "target_fraction c angle =
      (if ieee_gt (getBlockedByPlungerTime (m_kart c)) (Fin 0) then f2 else f1)"
    unfolding target_fraction_def Let_def f2_def f1_def f_def by (rule refl)
  have c1: "(is_nan f \<and> f1 = f) \<or> (is_finite f1 \<and> - 1 \<le> valof f1 \<and> valof f1 \<le> 1)"
    unfolding f1_def using clamp_cases [of 1 f] by simp
  have c2: "(is_nan f1 \<and> f2 = f1) \<or> (is_finite f2 \<and> - 0.5 \<le> valof f2 \<and> valof f2 \<le> 0.5)"
    unfolding f2_def using clamp_cases [of "0.5" f1] by simp
  show ?thesis
    unfolding t using c1 c2 by auto
qed

lemma binary32_half [simp]: "is_binary32 (Fin (1 / 2))" "is_binary32 (Fin (- (1 / 2)))"
  "is_binary32 (Fin 1)" "is_binary32 (Fin (- 1))"
  unfolding is_binary32_def
  by (simp_all add: representableI [of 1 _ _ "- 1"] representableI [of "- 1" _ _ "- 1"]
      representableI [of 1 _ _ 0] representableI [of "- 1" _ _ 0])

lemma target_fraction_is_binary32: "is_binary32 (target_fraction c angle)"
proof -
  define f where "f = fdiv angle (getMaxSteerAngle (m_kart c))"
  define f1 where "f1 = (if ieee_gt f (Fin 1) then Fin 1
                else if ieee_lt f (Fin (- 1)) then Fin (- 1) else f)"
  define f2 where "f2 = (if ieee_gt f1 (Fin 0.5) then Fin 0.5
                else if ieee_lt f1 (Fin (- 0.5)) then Fin (- 0.5) else f1)"
  have t: "target_fraction c angle =
      (if ieee_gt (getBlockedByPlungerTime (m_kart c)) (Fin 0) then f2 else f1)"
    unfolding target_fraction_def Let_def f2_def f1_def f_def by (rule refl)
  have "is_binary32 f" by (simp add: f_def)
  then have "is_binary32 f1" by (simp add: f1_def)
  then have "is_binary32 f2" by (simp add: f2_def)
  with \<open>is_binary32 f1\<close> show ?thesis by (simp add: t)
qed



lemma target_fraction_finite:
  assumes "\<not> is_nan (target_fraction c angle)"
  shows "is_finite (target_fraction c angle)" and "- 1 \<le> valof (target_fraction c angle)"
    and "valof (target_fraction c angle) \<le> 1"
  using target_fraction_range [of c angle] assms by auto

subsection \<open>One call\<close>

text \<open>
  \<open>setSteering\<close> leaves the kart and the AI properties alone; the steer value it stores is
  the ramp of lines 204-213 towards the target fraction.
\<close>

lemma setSteering_step:
  "m_kart (setSteering c angle dt) = m_kart c"
  "m_ai_properties (setSteering c angle dt) = m_ai_properties c"
  "m_steer (m_controls (setSteering c angle dt)) =
     (if ieee_lt (m_steer (m_controls c)) (target_fraction c angle)
      then (if ieee_gt (fadd (m_steer (m_controls c)) (max_steer_change_of c dt))
                       (target_fraction c angle)
            then target_fraction c angle
            else fadd (m_steer (m_controls c)) (max_steer_change_of c dt))
      else (if ieee_lt (fsub (m_steer (m_controls c)) (max_steer_change_of c dt))
                       (target_fraction c angle)
            then target_fraction c angle
            else fsub (m_steer (m_controls c)) (max_steer_change_of c dt)))"
proof -
  define T where "T = target_fraction c angle"
  define old where "old = m_steer (m_controls c)"
  define msc where "msc = max_steer_change_of c dt"
  define skid where "skid =
    (if \<not> doSkid c (fdiv angle (getMaxSteerAngle (m_kart c))) then SC_NONE
     else if ieee_gt (fdiv angle (getMaxSteerAngle (m_kart c))) (Fin 0)
          then SC_RIGHT else SC_LEFT)"
  define new where "new =
    (if ieee_lt old T then (if ieee_gt (fadd old msc) T then T else fadd old msc)
     else (if ieee_lt (fsub old msc) T then T else fsub old msc))"
  have s: "setSteering c angle dt =
      c\<lparr>m_controls := (m_controls c)\<lparr>m_skid := skid, m_steer := new\<rparr>\<rparr>"
    unfolding setSteering_def new_def skid_def msc_def old_def T_def target_fraction_def
      max_steer_change_of_def Let_def
    by (rule refl)
  show "m_kart (setSteering c angle dt) = m_kart c"
    and "m_ai_properties (setSteering c angle dt) = m_ai_properties c"
    by (simp_all add: s)
  show "m_steer (m_controls (setSteering c angle dt)) =
     (if ieee_lt (m_steer (m_controls c)) (target_fraction c angle)
      then (if ieee_gt (fadd (m_steer (m_controls c)) (max_steer_change_of c dt))
                       (target_fraction c angle)
            then target_fraction c angle
            else fadd (m_steer (m_controls c)) (max_steer_change_of c dt))
      else (if ieee_lt (fsub (m_steer (m_controls c)) (max_steer_change_of c dt))
                       (target_fraction c angle)
            then target_fraction c angle
            else fsub (m_steer (m_controls c)) (max_steer_change_of c dt)))"
    unfolding s new_def old_def msc_def T_def by simp
qed


text \<open>The two ramps of lines 204-213, for a step that is not negative.\<close>

lemma ramp_up:
  fixes old T msc :: ieee
  defines "new \<equiv> (if ieee_gt (fadd old msc) T then T else fadd old msc)"
  assumes old: "is_finite old" "is_binary32 old" and T: "is_finite T" "is_binary32 T"
    and lt: "ieee_lt old T" and msc: "ieee_ge msc (Fin 0)"
  shows "is_finite new" and "valof old \<le> valof new" and "valof new \<le> valof T"
    and "is_finite msc \<Longrightarrow> valof new - valof old \<le> 2 * valof msc"
proof -
  have oT: "valof old < valof T"
    using lt old(1) T(1) by (simp add: cmp_finite)
  have Tsmall: "valof T < 2 powi 128"
    using valid_finite(2) [OF T] by linarith
  have all: "is_finite new \<and> valof old \<le> valof new \<and> valof new \<le> valof T \<and>
      (is_finite msc \<longrightarrow> valof new - valof old \<le> 2 * valof msc)"
  proof -
    consider (fin) "is_finite msc" and "0 \<le> valof msc" | (inf) "msc = PInf"
      using ge_zero_disj [OF msc] by blast
    then show ?thesis
  proof cases
    case inf
    then have "fadd old msc = PInf" using old(1) by (simp add: fadd_PInf)
    with T(1) oT inf show ?thesis by (simp add: new_def)
  next
    case fin
    from fadd_up [OF old fin] show ?thesis
    proof
      assume "fadd old msc = PInf \<and> 2 powi 128 \<le> valof old + 2 * valof msc"
      with T(1) oT Tsmall show ?thesis by (simp add: new_def)
    next
      assume s: "is_finite (fadd old msc) \<and> valof old \<le> valof (fadd old msc) \<and>
        valof (fadd old msc) - valof old \<le> 2 * valof msc"
      show ?thesis
      proof (cases "ieee_gt (fadd old msc) T")
        case True
        then have "valof T < valof (fadd old msc)"
          using s T(1) by (simp add: cmp_finite)
        with True s T(1) oT show ?thesis by (simp add: new_def)
      next
        case False
        then have "valof (fadd old msc) \<le> valof T"
          using s T(1) by (simp add: cmp_finite)
        with False s show ?thesis by (simp add: new_def)
      qed
    qed
  qed
  qed
  from all show "is_finite new" and "valof old \<le> valof new" and "valof new \<le> valof T"
    and "is_finite msc \<Longrightarrow> valof new - valof old \<le> 2 * valof msc"
    by simp_all
qed

lemma ramp_down:
  fixes old T msc :: ieee
  defines "new \<equiv> (if ieee_lt (fsub old msc) T then T else fsub old msc)"
  assumes old: "is_finite old" "is_binary32 old" and T: "is_finite T" "is_binary32 T"
    and nlt: "\<not> ieee_lt old T" and msc: "ieee_ge msc (Fin 0)"
  shows "is_finite new" and "valof T \<le> valof new" and "valof new \<le> valof old"
    and "is_finite msc \<Longrightarrow> valof old - valof new \<le> 2 * valof msc"
proof -
  have oT: "valof T \<le> valof old"
    using nlt old(1) T(1) by (simp add: cmp_finite)
  have Tsmall: "- (2 powi 128) < valof T"
    using valid_finite(2) [OF T] by linarith
  have all: "is_finite new \<and> valof T \<le> valof new \<and> valof new \<le> valof old \<and>
      (is_finite msc \<longrightarrow> valof old - valof new \<le> 2 * valof msc)"
  proof -
    consider (fin) "is_finite msc" and "0 \<le> valof msc" | (inf) "msc = PInf"
      using ge_zero_disj [OF msc] by blast
    then show ?thesis
  proof cases
    case inf
    then have "fsub old msc = MInf" using old(1) by (simp add: fsub_PInf)
    with T(1) oT inf show ?thesis by (simp add: new_def)
  next
    case fin
    from fsub_down [OF old fin] show ?thesis
    proof
      assume "fsub old msc = MInf \<and> valof old - 2 * valof msc \<le> - (2 powi 128)"
      with T(1) oT Tsmall show ?thesis by (simp add: new_def)
    next
      assume s: "is_finite (fsub old msc) \<and> valof (fsub old msc) \<le> valof old \<and>
        valof old - valof (fsub old msc) \<le> 2 * valof msc"
      show ?thesis
      proof (cases "ieee_lt (fsub old msc) T")
        case True
        then have "valof (fsub old msc) < valof T"
          using s T(1) by (simp add: cmp_finite)
        with True s T(1) oT show ?thesis by (simp add: new_def)
      next
        case False
        then have "valof T \<le> valof (fsub old msc)"
          using s T(1) by (simp add: cmp_finite)
        with False s show ?thesis by (simp add: new_def)
      qed
    qed
  qed
  qed
  from all show "is_finite new" and "valof T \<le> valof new" and "valof new \<le> valof old"
    and "is_finite msc \<Longrightarrow> valof old - valof new \<le> 2 * valof msc"
    by simp_all
qed

text \<open>
  One call of the smoother, for a steer value that is a finite binary32 number, a target
  fraction that is not a NaN and a step that is not negative: the new steer value lies
  between the old one and the target, and at most two steps from the old one.
\<close>

lemma setSteering_between:
  assumes old: "is_finite (m_steer (m_controls c))" "is_binary32 (m_steer (m_controls c))"
    and T: "\<not> is_nan (target_fraction c angle)"
    and msc: "ieee_ge (max_steer_change_of c dt) (Fin 0)"
  shows "is_finite (m_steer (m_controls (setSteering c angle dt)))"
    and "is_binary32 (m_steer (m_controls (setSteering c angle dt)))"
    and "ieee_lt (m_steer (m_controls c)) (target_fraction c angle) \<Longrightarrow>
           valof (m_steer (m_controls c)) \<le> valof (m_steer (m_controls (setSteering c angle dt)))
           \<and> valof (m_steer (m_controls (setSteering c angle dt)))
               \<le> valof (target_fraction c angle)"
    and "\<not> ieee_lt (m_steer (m_controls c)) (target_fraction c angle) \<Longrightarrow>
           valof (target_fraction c angle)
             \<le> valof (m_steer (m_controls (setSteering c angle dt)))
           \<and> valof (m_steer (m_controls (setSteering c angle dt)))
               \<le> valof (m_steer (m_controls c))"
    and "is_finite (max_steer_change_of c dt) \<Longrightarrow>
           \<bar>valof (m_steer (m_controls (setSteering c angle dt))) - valof (m_steer (m_controls c))\<bar>
             \<le> 2 * valof (max_steer_change_of c dt)"
proof -
  define old where "old = m_steer (m_controls c)"
  define tf where "tf = target_fraction c angle"
  define ch where "ch = max_steer_change_of c dt"
  define new where "new = m_steer (m_controls (setSteering c angle dt))"
  have tfin: "is_finite tf" and tval: "is_binary32 tf"
    using target_fraction_finite(1) [OF T] target_fraction_is_binary32 [of c angle]
    by (simp_all add: tf_def)
  have o: "is_finite old" "is_binary32 old" using old by (simp_all add: old_def)
  have m: "ieee_ge ch (Fin 0)" using msc by (simp add: ch_def)
  have chv: "is_binary32 ch" by (simp add: ch_def max_steer_change_of_def)
  have step: "new = (if ieee_lt old tf
        then (if ieee_gt (fadd old ch) tf then tf else fadd old ch)
        else (if ieee_lt (fsub old ch) tf then tf else fsub old ch))"
    unfolding new_def old_def tf_def ch_def by (rule setSteering_step(3))
  have valid: "is_binary32 new"
    unfolding step using o(2) tval chv by (simp add: fadd_is_binary32 fsub_is_binary32)
  have main: "is_finite new \<and>
      (ieee_lt old tf \<longrightarrow> valof old \<le> valof new \<and> valof new \<le> valof tf) \<and>
      (\<not> ieee_lt old tf \<longrightarrow> valof tf \<le> valof new \<and> valof new \<le> valof old) \<and>
      (is_finite ch \<longrightarrow> \<bar>valof new - valof old\<bar> \<le> 2 * valof ch)"
  proof (cases "ieee_lt old tf")
    case True
    then have n: "new = (if ieee_gt (fadd old ch) tf then tf else fadd old ch)"
      by (simp add: step)
    show ?thesis
      unfolding n using ramp_up [OF o tfin tval True m] True by auto
  next
    case False
    then have n: "new = (if ieee_lt (fsub old ch) tf then tf else fsub old ch)"
      by (simp add: step)
    show ?thesis
      unfolding n using ramp_down [OF o tfin tval False m] False by auto
  qed
  from main valid show "is_finite (m_steer (m_controls (setSteering c angle dt)))"
    and "is_binary32 (m_steer (m_controls (setSteering c angle dt)))"
    and "ieee_lt (m_steer (m_controls c)) (target_fraction c angle) \<Longrightarrow>
           valof (m_steer (m_controls c)) \<le> valof (m_steer (m_controls (setSteering c angle dt)))
           \<and> valof (m_steer (m_controls (setSteering c angle dt)))
               \<le> valof (target_fraction c angle)"
    and "\<not> ieee_lt (m_steer (m_controls c)) (target_fraction c angle) \<Longrightarrow>
           valof (target_fraction c angle)
             \<le> valof (m_steer (m_controls (setSteering c angle dt)))
           \<and> valof (m_steer (m_controls (setSteering c angle dt)))
               \<le> valof (m_steer (m_controls c))"
    and "is_finite (max_steer_change_of c dt) \<Longrightarrow>
           \<bar>valof (m_steer (m_controls (setSteering c angle dt))) - valof (m_steer (m_controls c))\<bar>
             \<le> 2 * valof (max_steer_change_of c dt)"
    unfolding new_def old_def tf_def ch_def by simp_all
qed

text \<open>
  Under the same conditions a steer value within \<open>[-1, 1]\<close> stays there, and while the
  plunger time of the kart is positive a steer value within \<open>[-0.5, 0.5]\<close> stays there.
\<close>

lemma setSteering_range:
  assumes old: "is_finite (m_steer (m_controls c))" "is_binary32 (m_steer (m_controls c))"
    and T: "\<not> is_nan (target_fraction c angle)"
    and msc: "ieee_ge (max_steer_change_of c dt) (Fin 0)"
  shows "\<bar>valof (m_steer (m_controls c))\<bar> \<le> 1 \<Longrightarrow>
           \<bar>valof (m_steer (m_controls (setSteering c angle dt)))\<bar> \<le> 1"
    and "ieee_gt (getBlockedByPlungerTime (m_kart c)) (Fin 0) \<Longrightarrow>
         \<bar>valof (m_steer (m_controls c))\<bar> \<le> 0.5 \<Longrightarrow>
           \<bar>valof (m_steer (m_controls (setSteering c angle dt)))\<bar> \<le> 0.5"
proof -
  define new where "new = valof (m_steer (m_controls (setSteering c angle dt)))"
  define tf where "tf = valof (target_fraction c angle)"
  define ov where "ov = valof (m_steer (m_controls c))"
  have between: "(ov \<le> new \<and> new \<le> tf) \<or> (tf \<le> new \<and> new \<le> ov)"
    using setSteering_between(3) [OF old T msc] setSteering_between(4) [OF old T msc]
    unfolding new_def tf_def ov_def by blast
  have r1: "- 1 \<le> tf" "tf \<le> 1"
    using target_fraction_finite [OF T] by (simp_all add: tf_def)
  show "\<bar>valof (m_steer (m_controls c))\<bar> \<le> 1 \<Longrightarrow>
           \<bar>valof (m_steer (m_controls (setSteering c angle dt)))\<bar> \<le> 1"
    using between r1 unfolding new_def [symmetric] ov_def [symmetric] by linarith
  assume "ieee_gt (getBlockedByPlungerTime (m_kart c)) (Fin 0)"
  then have r2: "- 0.5 \<le> tf" "tf \<le> 0.5"
    using target_fraction_range [of c angle] T by (simp_all add: tf_def)
  show "\<bar>valof (m_steer (m_controls c))\<bar> \<le> 0.5 \<Longrightarrow>
           \<bar>valof (m_steer (m_controls (setSteering c angle dt)))\<bar> \<le> 0.5"
    using between r2 unfolding new_def [symmetric] ov_def [symmetric] by linarith
qed

subsection \<open>The steer value while a plunger blocks the view\<close>





text \<open>
  The first part fails for an angle that is a NaN: every test of lines 193-211 is then
  false and the call stores the old steer value minus one step, here -1.1.
\<close>

lemma nan_target:
  "target_fraction (sample_controller\<lparr>m_controls := \<lparr>m_steer = Fin (- 1), m_skid = SC_NONE\<rparr>\<rparr>)
     NaN = NaN"
  by (simp add: target_fraction_def sample_defs float_run_simps)

lemma nan_change:
  "max_steer_change_of (sample_controller\<lparr>m_controls := \<lparr>m_steer = Fin (- 1), m_skid = SC_NONE\<rparr>\<rparr>)
     (float_lit 0.1) = Fin (13421773 / 134217728)"
  by (simp add: max_steer_change_of_def sample_defs fdiv_by_one float_lit_tenth)

lemma nan_fsub: "fsub (Fin (- 1)) (Fin (13421773 / 134217728)) = Fin (- (9227469 / 2 ^ 23))"
  by (simp add: float_run_simps round_real_eval [of 0])

lemma setSteering_nan_angle:
  "m_steer (m_controls (setSteering
      (sample_controller\<lparr>m_controls := \<lparr>m_steer = Fin (- 1), m_skid = SC_NONE\<rparr>\<rparr>)
      NaN (float_lit 0.1))) = Fin (- (9227469 / 2 ^ 23))"
proof -
  let ?c = "sample_controller\<lparr>m_controls := \<lparr>m_steer = Fin (- 1), m_skid = SC_NONE\<rparr>\<rparr>"
  have old: "m_steer (m_controls ?c) = Fin (- 1)"
    by simp
  show ?thesis
    unfolding setSteering_step(3) old nan_target nan_change nan_fsub
    by (simp add: ieee_cmp_defs)
qed

subsection \<open>Repeated calls\<close>









text \<open>
  The steer value 0.5, the target fraction 1 and the time step \<open>3 / 2 ^ 26\<close>: the sum is
  rounded up to the next binary32 number, and the steer value moves by \<open>2 ^ -24\<close>, more
  than the step.
\<close>

lemma rounded_target:
  "target_fraction (sample_controller\<lparr>m_controls := \<lparr>m_steer = Fin 0.5, m_skid = SC_NONE\<rparr>\<rparr>)
     (Fin 1) = Fin 1"
  by (simp add: target_fraction_def sample_defs fdiv_by_one ieee_cmp_defs)

lemma fdiv_small: "fdiv (Fin (3 / 67108864)) (Fin 1) = Fin (3 / 67108864)"
  by (simp add: float_run_simps round_real_eval [of "- 25"])

lemma rounded_change:
  "max_steer_change_of (sample_controller\<lparr>m_controls := \<lparr>m_steer = Fin 0.5, m_skid = SC_NONE\<rparr>\<rparr>)
     (Fin (3 / 2 ^ 26)) = Fin (3 / 67108864)"
  by (simp add: max_steer_change_of_def sample_defs fdiv_small)

lemma rounded_fadd: "fadd (Fin 0.5) (Fin (3 / 67108864)) = Fin (8388609 / 2 ^ 24)"
  by (simp add: float_run_simps round_real_eval [of "- 1"])

lemma setSteering_rounded_step:
  "m_steer (m_controls (setSteering
      (sample_controller\<lparr>m_controls := \<lparr>m_steer = Fin 0.5, m_skid = SC_NONE\<rparr>\<rparr>)
      (Fin 1) (Fin (3 / 2 ^ 26)))) = Fin (8388609 / 2 ^ 24) \<and>
   max_steer_change_of (sample_controller\<lparr>m_controls := \<lparr>m_steer = Fin 0.5, m_skid = SC_NONE\<rparr>\<rparr>)
     (Fin (3 / 2 ^ 26)) = Fin (3 / 2 ^ 26) \<and>
   (8388609 / 2 ^ 24 - 0.5 :: real) > 3 / 2 ^ 26"
proof -
  let ?c = "sample_controller\<lparr>m_controls := \<lparr>m_steer = Fin 0.5, m_skid = SC_NONE\<rparr>\<rparr>"
  have old: "m_steer (m_controls ?c) = Fin 0.5"
    by simp
  have "m_steer (m_controls (setSteering ?c (Fin 1) (Fin (3 / 2 ^ 26)))) = Fin (8388609 / 2 ^ 24)"
    unfolding setSteering_step(3) old rounded_target rounded_change rounded_fadd
    by (simp add: ieee_cmp_defs)
  then show ?thesis
    using rounded_change by simp
qed







section \<open>Properties of the multitouch device\<close>



end
